theory Spec2Isabelle
  imports Main "HOL-Library.AList"
begin

section \<open>Values, errors and column declarations\<close>

text \<open>
  Python values: \<open>PyNone\<close> is \<^verbatim>\<open>None\<close> (the absent marker of a field), every other
  value is wrapped by \<open>PyVal\<close>. The theory is polymorphic in the universe of values.
\<close>

datatype 'v pyval = PyNone | PyVal 'v

text \<open>
  Exceptions as values. \<open>ModelException\<close> carries the two arguments of the format string
  \<^verbatim>\<open>"{} defines the column {} more than once"\<close>: the type name and the storage field.
\<close>

datatype error =
    ModelException string "string option"
  | ValidationError string
  | AttributeError string
  | KeyError "string option"
  | TypeError
  | NotFound

text \<open>
  A column declaration (\<^verbatim>\<open>columns.BaseColumn\<close>, which is not part of \<^verbatim>\<open>models.py\<close>): the
  attributes \<^verbatim>\<open>position\<close>, \<^verbatim>\<open>primary_key\<close> and \<^verbatim>\<open>db_field\<close> (\<^verbatim>\<open>None\<close> until a storage
  name is known) that \<^verbatim>\<open>models.py\<close> reads, and the two capabilities \<^verbatim>\<open>validate\<close> and
  \<^verbatim>\<open>to_database\<close> it calls, taken as parameters of the column.
\<close>

record 'v column =
  position :: int
  primary_key :: bool
  db_field :: "string option"
  col_validate :: "'v pyval \<Rightarrow> error + 'v pyval"
  col_to_database :: "'v pyval \<Rightarrow> 'v pyval"

text \<open>
  Modelled from the spec: \<^verbatim>\<open>BaseColumn.set_db_name\<close> is not under src/. The spec (4.1, step 4):
  a declaration that was not given an explicit storage name defaults to its field name.
  The method changes the column object; the model returns the changed column, every
  declaration of a class body being an object of its own.
\<close>

definition set_db_name :: "string \<Rightarrow> 'v column \<Rightarrow> 'v column" where
  "set_db_name name col =
     (case db_field col of None \<Rightarrow> col\<lparr>db_field := Some name\<rparr> | Some d \<Rightarrow> col)"

text \<open>
  Modelled from the spec: \<^verbatim>\<open>columns.UUID\<close> is not under src/. \<^verbatim>\<open>UUID(primary_key=pk)\<close> is a
  declaration with the given \<^verbatim>\<open>primary_key\<close> and no explicit storage name; its position and
  its two capabilities are those of the parameter \<open>uuid\<close>.
\<close>

definition UUID :: "'v column \<Rightarrow> bool \<Rightarrow> 'v column" where
  "UUID uuid pk = uuid\<lparr>primary_key := pk, db_field := None\<rparr>"

text \<open>
  The attributes of a class body: a column declaration, an accessor (the property object
  \<^verbatim>\<open>get_property\<close> returns), a string, or any other value.
\<close>

datatype 'v attr =
    Column "'v column"
  | Property string bool
  | Str string
  | Other "'v pyval"

text \<open>
  Modelled from the spec: \<^verbatim>\<open>BaseColumn.get_property\<close> is not under src/. The spec (4.1): the
  accessor of a field reads and writes the instance's value mapping; it is recorded here by
  the field it belongs to and by whether it allows deletion.
\<close>

definition get_property :: "string \<Rightarrow> bool \<Rightarrow> 'v attr" where
  "get_property col_name allow_delete = Property col_name allow_delete"

section \<open>The schema builder: \<^verbatim>\<open>ModelMetaClass.__new__\<close>\<close>

text \<open>
  Python dictionaries are association lists with distinct keys; \<^verbatim>\<open>d[k] = v\<close> is
  \<^const>\<open>AList.update\<close>, which replaces the value of a present key in place and appends an absent
  one: exactly the behaviour of the \<^verbatim>\<open>OrderedDict\<close> \<^verbatim>\<open>_columns\<close>. The list \<open>attrs\<close> is
  \<^verbatim>\<open>attrs.items()\<close> in the order in which the dictionary yields it.
\<close>

type_synonym 'v columns = "(string \<times> 'v column) list"
type_synonym 'v attrs = "(string \<times> 'v attr) list"
type_synonym 'v dict = "(string \<times> 'v pyval) list"

text \<open>The created class: its name, its attributes, and the four management members.\<close>

record 'v klass =
  k_name :: string
  k_attrs :: "'v attrs"
  k_columns :: "'v columns"
  k_db_map :: "(string option \<times> string) list"
  k_pk_name :: "string option"
  k_dynamic_columns :: "'v dict"

text \<open>Line 78: the attributes that are column declarations.\<close>

fun column_definitions :: "'v attrs \<Rightarrow> 'v columns" where
  "column_definitions [] = []"
| "column_definitions ((k, Column c) # attrs) = (k, c) # column_definitions attrs"
| "column_definitions ((k, _) # attrs) = column_definitions attrs"

text \<open>Line 79: \<^verbatim>\<open>sorted\<close> with the comparison of positions; Python's sort is stable.\<close>

definition sorted_definitions :: "'v columns \<Rightarrow> 'v columns" where
  "sorted_definitions defs = sort_key (\<lambda>x. position (snd x)) defs"

text \<open>Lines 81 to 84: prepend a primary key if none has been defined.\<close>

definition prepend_primary_key :: "'v column \<Rightarrow> 'v columns \<Rightarrow> 'v columns" where
  "prepend_primary_key uuid defs =
     (if \<not> list_ex (\<lambda>x. primary_key (snd x)) defs
      then (''id'', UUID uuid True) # defs else defs)"

text \<open>
  Lines 86 to 90 with \<^verbatim>\<open>_transform_column\<close> (lines 71 to 75) inlined: the loop state is
  \<^verbatim>\<open>_columns\<close>, \<^verbatim>\<open>pk_name\<close> and \<^verbatim>\<open>attrs\<close>.
\<close>

fun transform_columns ::
  "'v columns \<Rightarrow> 'v columns \<times> string option \<times> 'v attrs \<Rightarrow> 'v columns \<times> string option \<times> 'v attrs"
where
  "transform_columns [] st = st"
| "transform_columns ((k, v) # defs) (cols, pk_name, attrs) =
     (let pk_name' = (if pk_name = None \<and> primary_key v then Some k else pk_name);
          cols' = AList.update k (set_db_name k v) cols;
          allow_delete = \<not> primary_key v;
          attrs' = AList.update k (get_property k allow_delete) attrs
      in transform_columns defs (cols', pk_name', attrs'))"

text \<open>
  Lines 92 to 94: the \<^verbatim>\<open>pk\<close> shortcut. \<^verbatim>\<open>_columns[pk_name]\<close> raises \<^verbatim>\<open>KeyError\<close> for a key
  that is not registered.
\<close>

definition pk_shortcut ::
  "'v columns \<Rightarrow> string option \<Rightarrow> 'v attrs \<Rightarrow> error + 'v attrs" where
  "pk_shortcut cols pk_name attrs =
     (if pk_name \<noteq> Some ''pk'' then
        (case pk_name of
           None \<Rightarrow> Inl (KeyError None)
         | Some p \<Rightarrow>
             (case map_of cols p of
                None \<Rightarrow> Inl (KeyError (Some p))
              | Some c \<Rightarrow> Inr (AList.update ''pk'' (get_property p False) attrs)))
      else Inr attrs)"

text \<open>Lines 96 to 101: the check for duplicate column names; \<open>None\<close> means no exception.\<close>

fun check_duplicates :: "string \<Rightarrow> 'v columns \<Rightarrow> string option set \<Rightarrow> error option" where
  "check_duplicates name [] col_names = None"
| "check_duplicates name ((k, v) # cols) col_names =
     (if db_field v \<in> col_names then Some (ModelException name (db_field v))
      else check_duplicates name cols (insert (db_field v) col_names))"

text \<open>
  Lines 103 and 104: \<^verbatim>\<open>cf_name = attrs.pop('db_name', name)\<close>, the value and the attributes
  that are left.
\<close>

definition cf_name :: "string \<Rightarrow> 'v attrs \<Rightarrow> 'v attr" where
  "cf_name name attrs = (case map_of attrs ''db_name'' of Some a \<Rightarrow> a | None \<Rightarrow> Str name)"

definition pop_db_name :: "'v attrs \<Rightarrow> 'v attrs" where
  "pop_db_name attrs = AList.delete ''db_name'' attrs"

text \<open>
  Lines 106 to 109: the loop that fills \<^verbatim>\<open>db_map\<close>. Its loop variable is \<^verbatim>\<open>name\<close>, the
  parameter of \<^verbatim>\<open>__new__\<close>, so the loop state is the map and \<^verbatim>\<open>name\<close>.
\<close>

fun db_map_loop ::
  "'v columns \<Rightarrow> (string option \<times> string) list \<times> string \<Rightarrow> (string option \<times> string) list \<times> string"
where
  "db_map_loop [] st = st"
| "db_map_loop ((name', col) # cols) (db_map, name) =
     db_map_loop cols (AList.update (db_field col) name' db_map, name')"

text \<open>
  The registered columns, the primary key name and the attributes after lines 78 to 90.
\<close>

definition transformed ::
  "'v column \<Rightarrow> 'v attrs \<Rightarrow> 'v columns \<times> string option \<times> 'v attrs" where
  "transformed uuid attrs =
     transform_columns
       (prepend_primary_key uuid (sorted_definitions (column_definitions attrs)))
       ([], None, attrs)"

definition registered :: "'v column \<Rightarrow> 'v attrs \<Rightarrow> 'v columns" where
  "registered uuid attrs = fst (transformed uuid attrs)"

text \<open>
  \<^verbatim>\<open>ModelMetaClass.__new__(cls, name, bases, attrs)\<close>. The value \<^verbatim>\<open>cf_name\<close> of line 104 is
  bound and not used again; the class is created under the current value of \<^verbatim>\<open>name\<close>
  (line 118). \<^verbatim>\<open>bases\<close> is passed through unchanged and left out.
\<close>

definition build :: "'v column \<Rightarrow> string \<Rightarrow> 'v attrs \<Rightarrow> error + 'v klass" where
  "build uuid name attrs =
     (case transformed uuid attrs of (cols, pk_name, attrs1) \<Rightarrow>
        (case pk_shortcut cols pk_name attrs1 of
           Inl e \<Rightarrow> Inl e
         | Inr attrs2 \<Rightarrow>
             (case check_duplicates name cols {} of
                Some e \<Rightarrow> Inl e
              | None \<Rightarrow>
                  (let cf = cf_name name attrs2;
                       attrs3 = pop_db_name attrs2
                   in case db_map_loop cols ([], name) of (db_map, name') \<Rightarrow>
                        Inr \<lparr>k_name = name', k_attrs = attrs3, k_columns = cols,
                             k_db_map = db_map, k_pk_name = pk_name,
                             k_dynamic_columns = []\<rparr>))))"

section \<open>Record instances: \<^verbatim>\<open>BaseModel\<close>\<close>

text \<open>
  An instance holds the mapping from slot name to current value, and the attribute
  \<^verbatim>\<open>_dynamic_columns\<close> of its own if one has been assigned to it: \<open>None\<close> when it has
  none, and then \<^verbatim>\<open>self._dynamic_columns\<close> is the member of the class (line 115).
  \<^verbatim>\<open>self._columns\<close> and \<^verbatim>\<open>self._pk_name\<close> are the members of the class.
\<close>

record 'v inst =
  i_values :: "'v dict"
  i_dynamic_columns :: "'v dict option"

text \<open>
  The names of the management members, lines 112 to 115. They are stored into \<^verbatim>\<open>attrs\<close>
  last, so an accessor that was bound to one of these names is not an attribute of the
  created class.
\<close>

definition members :: "string list" where
  "members = [''_columns'', ''_db_map'', ''_pk_name'', ''_dynamic_columns'']"

text \<open>
  The accessor that the created class binds to an attribute name, given by the field whose
  slot it reads and writes. \<open>k_attrs\<close> holds the attributes as lines 75, 94 and 104 leave
  them: line 75 binds every field name to the accessor of its own column, line 94 binds
  \<^verbatim>\<open>pk\<close> to the accessor of the primary key (over the accessor of a column that is itself
  named \<^verbatim>\<open>pk\<close>), and line 104 removes the attribute \<^verbatim>\<open>db_name\<close>.
\<close>

definition accessor :: "'v klass \<Rightarrow> string \<Rightarrow> string option" where
  "accessor k name =
     (if name \<in> set members then None
      else (case map_of (k_attrs k) name of
              Some (Property field allow_delete) \<Rightarrow> Some field
            | _ \<Rightarrow> None))"

text \<open>
  Modelled from the spec: the accessors that \<^verbatim>\<open>get_property\<close> returns are not under src/.
  The spec (4.1, steps 4 and 5): the accessor of a field reads and writes the instance's
  value mapping, and the accessor installed under \<^verbatim>\<open>pk\<close> forwards to the same storage slot
  as the accessor of the primary key. So the slot behind an attribute name is the field of
  the accessor that the class binds to the name; a name without an accessor is an
  attribute of the instance, kept in the mapping under the name itself.
\<close>

definition slot :: "'v klass \<Rightarrow> string \<Rightarrow> string" where
  "slot k name = (case accessor k name of Some field \<Rightarrow> field | None \<Rightarrow> name)"

text \<open>
  Modelled from the spec: \<^verbatim>\<open>getattr(self, name)\<close> and \<^verbatim>\<open>setattr(self, name, v)\<close> go through
  the accessor bound to \<open>name\<close> (spec 4.1, as above), so they read and write the slot of
  \<open>name\<close> in the instance's value mapping. \<open>None\<close> is the answer for a slot that was never
  set, where \<^verbatim>\<open>getattr\<close> without a default raises.
\<close>

definition getattr :: "'v klass \<Rightarrow> 'v inst \<Rightarrow> string \<Rightarrow> 'v pyval option" where
  "getattr k self name = map_of (i_values self) (slot k name)"

definition setattr :: "'v klass \<Rightarrow> 'v inst \<Rightarrow> string \<Rightarrow> 'v pyval \<Rightarrow> 'v inst" where
  "setattr k self name v = self\<lparr>i_values := AList.update (slot k name) v (i_values self)\<rparr>"

text \<open>
  Every field name of the schema is bound to the accessor of its own column. Lines 94, 104
  and 112 to 115 break this for a column named \<^verbatim>\<open>pk\<close> that is not the primary key, for a
  column named \<^verbatim>\<open>db_name\<close> and for a column named like a management member (assigning
  such a field creates an attribute of the instance that hides the member of the class).
\<close>

definition own_accessors :: "'v klass \<Rightarrow> bool" where
  "own_accessors k = list_all (\<lambda>name. accessor k name = Some name) (map fst (k_columns k))"

text \<open>\<^verbatim>\<open>__init__\<close>, lines 18 to 20: set columns from values.\<close>

fun init_given :: "'v klass \<Rightarrow> 'v dict \<Rightarrow> 'v inst \<Rightarrow> 'v inst" where
  "init_given k [] self = self"
| "init_given k ((n, v) # values) self =
     init_given k values (if n \<in> set (map fst (k_columns k)) then setattr k self n v else self)"

text \<open>\<^verbatim>\<open>__init__\<close>, lines 22 to 25: set excluded columns to \<^verbatim>\<open>None\<close>.\<close>

fun init_excluded :: "'v klass \<Rightarrow> string list \<Rightarrow> 'v dict \<Rightarrow> 'v inst \<Rightarrow> 'v inst" where
  "init_excluded k [] values self = self"
| "init_excluded k (n # keys) values self =
     init_excluded k keys values
       (if n \<notin> set (map fst values) then setattr k self n PyNone else self)"

text \<open>
  \<^verbatim>\<open>__init__\<close>, lines 16 to 25, on a new object: no slot is set and the object has no
  \<^verbatim>\<open>_dynamic_columns\<close> of its own. \<open>values\<close> is \<^verbatim>\<open>values.items()\<close>.
\<close>

definition init :: "'v klass \<Rightarrow> 'v dict \<Rightarrow> 'v inst" where
  "init k values =
     init_excluded k (map fst (k_columns k)) values
       (init_given k values \<lparr>i_values = [], i_dynamic_columns = None\<rparr>)"

text \<open>The property \<^verbatim>\<open>pk\<close>, lines 32 to 35.\<close>

definition pk :: "'v klass \<Rightarrow> 'v inst \<Rightarrow> error + 'v pyval" where
  "pk k self =
     (case k_pk_name k of
        None \<Rightarrow> Inl TypeError
      | Some p \<Rightarrow> (case getattr k self p of None \<Rightarrow> Inl (AttributeError p) | Some v \<Rightarrow> Inr v))"

text \<open>
  \<^verbatim>\<open>validate\<close>, lines 37 to 41. An exception leaves the instance as the loop has changed it so
  far, so the error case carries the instance too.
\<close>

fun validate_loop :: "'v klass \<Rightarrow> 'v columns \<Rightarrow> 'v inst \<Rightarrow> error \<times> 'v inst + 'v inst" where
  "validate_loop k [] self = Inr self"
| "validate_loop k ((name, col) # cols) self =
     (case getattr k self name of
        None \<Rightarrow> Inl (AttributeError name, self)
      | Some x \<Rightarrow>
          (case col_validate col x of
             Inl e \<Rightarrow> Inl (e, self)
           | Inr val \<Rightarrow> validate_loop k cols (setattr k self name val)))"

definition validate :: "'v klass \<Rightarrow> 'v inst \<Rightarrow> error \<times> 'v inst + 'v inst" where
  "validate k self = validate_loop k (k_columns k) self"

text \<open>
  \<^verbatim>\<open>self._dynamic_columns\<close>: the attribute of the instance if it has one, the member of the
  class otherwise. \<open>set_dynamic_columns\<close> is a change made in place to the dictionary that
  this expression yields: it lands where the dictionary lives.
\<close>

definition dynamic_columns :: "'v klass \<Rightarrow> 'v inst \<Rightarrow> 'v dict" where
  "dynamic_columns k self =
     (case i_dynamic_columns self of Some d \<Rightarrow> d | None \<Rightarrow> k_dynamic_columns k)"

definition set_dynamic_columns :: "'v klass \<Rightarrow> 'v inst \<Rightarrow> 'v dict \<Rightarrow> 'v klass \<times> 'v inst" where
  "set_dynamic_columns k self d =
     (case i_dynamic_columns self of
        Some d0 \<Rightarrow> (k, self\<lparr>i_dynamic_columns := Some d\<rparr>)
      | None \<Rightarrow> (k\<lparr>k_dynamic_columns := d\<rparr>, self))"

text \<open>
  \<^verbatim>\<open>self._dynamic_columns[key] = v\<close>: item assignment on the dictionary an instance sees.
\<close>

definition dynamic_setitem ::
  "'v klass \<Rightarrow> 'v inst \<Rightarrow> string \<Rightarrow> 'v pyval \<Rightarrow> 'v klass \<times> 'v inst" where
  "dynamic_setitem k self key v =
     set_dynamic_columns k self (AList.update key v (dynamic_columns k self))"

text \<open>
  \<^verbatim>\<open>as_dict\<close>, lines 43 to 48. \<^verbatim>\<open>self._dynamic_columns or {}\<close> is the dictionary the instance
  sees when that is not empty, and a new dictionary otherwise; the loop writes into
  whichever it is, so the class and the instance are part of the result.
\<close>

fun as_dict_loop :: "'v klass \<Rightarrow> 'v columns \<Rightarrow> 'v inst \<Rightarrow> 'v dict \<Rightarrow> 'v dict" where
  "as_dict_loop k [] self values = values"
| "as_dict_loop k ((name, col) # cols) self values =
     as_dict_loop k cols self
       (AList.update name
          (col_to_database col (case getattr k self name of None \<Rightarrow> PyNone | Some x \<Rightarrow> x))
          values)"

definition as_dict :: "'v klass \<Rightarrow> 'v inst \<Rightarrow> ('v klass \<times> 'v inst) \<times> 'v dict" where
  "as_dict k self =
     (if dynamic_columns k self \<noteq> [] then
        (let values = as_dict_loop k (k_columns k) self (dynamic_columns k self)
         in (set_dynamic_columns k self values, values))
      else ((k, self), as_dict_loop k (k_columns k) self []))"

text \<open>
  Modelled from the spec: the \<^verbatim>\<open>Manager\<close> bound to the class as \<^verbatim>\<open>objects\<close> is not under src/.
  It is an opaque collaborator: the model keeps the calls it receives, in order, and takes
  the outcome of its lookup as a parameter.
\<close>

datatype 'v call =
    Find "'v pyval"
  | SaveInstance "'v inst"
  | DeleteInstance "'v inst"

record 'v manager =
  m_lookup :: "'v pyval \<Rightarrow> error + 'v inst"
  m_calls :: "'v call list"

definition manager_find :: "'v manager \<Rightarrow> 'v pyval \<Rightarrow> 'v manager \<times> (error + 'v inst)" where
  "manager_find m key = (m\<lparr>m_calls := m_calls m @ [Find key]\<rparr>, m_lookup m key)"

definition save_instance :: "'v manager \<Rightarrow> 'v inst \<Rightarrow> 'v manager" where
  "save_instance m inst = m\<lparr>m_calls := m_calls m @ [SaveInstance inst]\<rparr>"

definition delete_instance :: "'v manager \<Rightarrow> 'v inst \<Rightarrow> 'v manager" where
  "delete_instance m inst = m\<lparr>m_calls := m_calls m @ [DeleteInstance inst]\<rparr>"

text \<open>
  \<^verbatim>\<open>find\<close>, lines 27 to 30: the body is the call alone, so the method returns \<^verbatim>\<open>None\<close>
  (\<open>None\<close> here) when the call returns, and raises what the call raises.
\<close>

definition find :: "'v manager \<Rightarrow> 'v pyval \<Rightarrow> 'v manager \<times> (error + 'v inst option)" where
  "find m key =
     (case manager_find m key of
        (m', Inl e) \<Rightarrow> (m', Inl e)
      | (m', Inr found) \<Rightarrow> (m', Inr None))"

text \<open>
  \<^verbatim>\<open>save\<close>, lines 50 to 54. The local \<^verbatim>\<open>is_new\<close> is returned beside the instance, so that
  its value can be stated; the method itself returns \<^verbatim>\<open>self\<close>, the instance as the call
  leaves it. An exception carries the instance as it was left. \<^verbatim>\<open>self.pk\<close> is read as the
  property of lines 32 to 35 reads it; the accessor that a built class binds to \<^verbatim>\<open>pk\<close>
  reads the same slot.
\<close>

definition save ::
  "'v klass \<Rightarrow> 'v manager \<Rightarrow> 'v inst \<Rightarrow> 'v manager \<times> (error \<times> 'v inst + bool \<times> 'v inst)"
where
  "save k m self =
     (case pk k self of
        Inl e \<Rightarrow> (m, Inl (e, self))
      | Inr key \<Rightarrow>
          (let is_new = (key = PyNone) in
           case validate k self of
             Inl (e, self') \<Rightarrow> (m, Inl (e, self'))
           | Inr self' \<Rightarrow> (save_instance m self', Inr (is_new, self'))))"

text \<open>\<^verbatim>\<open>delete\<close>, lines 56 to 58.\<close>

definition delete :: "'v manager \<Rightarrow> 'v inst \<Rightarrow> 'v manager" where
  "delete m self = delete_instance m self"

text \<open>
  The field names of the primary-key columns of a list of columns, in the order of the
  list: the columns for which line 82 and line 88 read \<^verbatim>\<open>primary_key\<close> as true.
\<close>

definition primary_keys :: "'v columns \<Rightarrow> string list" where
  "primary_keys cols = map fst (filter (\<lambda>x. primary_key (snd x)) cols)"

section \<open>Example declarations\<close>

text \<open>
  Concrete columns over string values, used where a statement is evaluated: a column that
  accepts every value and stores it unchanged, an identifier column whose validator assigns
  a value to an absent field, and a column whose validator rejects every value.
\<close>

definition ex_column :: "int \<Rightarrow> bool \<Rightarrow> string option \<Rightarrow> string column" where
  "ex_column pos is_pk field =
     \<lparr>position = pos, primary_key = is_pk, db_field = field,
      col_validate = Inr, col_to_database = (\<lambda>x. x)\<rparr>"

definition ex_uuid :: "string column" where
  "ex_uuid =
     \<lparr>position = 100, primary_key = False, db_field = None,
      col_validate = (\<lambda>x. case x of PyNone \<Rightarrow> Inr (PyVal ''generated'') | PyVal y \<Rightarrow> Inr x),
      col_to_database = (\<lambda>x. x)\<rparr>"

definition ex_rejecting :: "int \<Rightarrow> string column" where
  "ex_rejecting pos =
     \<lparr>position = pos, primary_key = False, db_field = None,
      col_validate = (\<lambda>x. Inl (ValidationError ''rejected'')),
      col_to_database = (\<lambda>x. x)\<rparr>"

definition ex_upper :: "int \<Rightarrow> string column" where
  "ex_upper pos =
     \<lparr>position = pos, primary_key = False, db_field = None,
      col_validate = (\<lambda>x. case x of PyNone \<Rightarrow> Inr PyNone | PyVal y \<Rightarrow> Inr (PyVal (y @ ''!''))),
      col_to_database = (\<lambda>x. case x of PyNone \<Rightarrow> PyVal ''null'' | PyVal y \<Rightarrow> PyVal (''enc:'' @ y))\<rparr>"

text \<open>Two class bodies: one whose columns get distinct storage names, one with a clash.\<close>

definition ex_user_attrs :: "string attrs" where
  "ex_user_attrs =
     [(''age'', Column (ex_column 1 False None)),
      (''db_name'', Str ''users''),
      (''name'', Column (ex_column 0 False None))]"

definition ex_clash_attrs :: "string attrs" where
  "ex_clash_attrs =
     [(''a'', Column (ex_column 0 False (Some ''x''))),
      (''b'', Column (ex_column 1 False (Some ''x'')))]"

text \<open>
  Class bodies with one declared primary key, with two, and with a column named \<^verbatim>\<open>id\<close> that
  is not a primary key, each beside the class the build returns for it.
\<close>

definition ex_one_pk_attrs :: "string attrs" where
  "ex_one_pk_attrs =
     [(''email'', Column (ex_column 1 True None)),
      (''name'', Column (ex_column 0 False None))]"

definition ex_one_pk_klass :: "string klass" where
  "ex_one_pk_klass =
     \<lparr>k_name = ''email'',
      k_attrs = [(''email'', Property ''email'' False), (''name'', Property ''name'' True),
                 (''pk'', Property ''email'' False)],
      k_columns = [(''name'', ex_column 0 False (Some ''name'')),
                   (''email'', ex_column 1 True (Some ''email''))],
      k_db_map = [(Some ''name'', ''name''), (Some ''email'', ''email'')],
      k_pk_name = Some ''email'',
      k_dynamic_columns = []\<rparr>"

definition ex_two_pk_attrs :: "string attrs" where
  "ex_two_pk_attrs =
     [(''a'', Column (ex_column 0 True None)),
      (''b'', Column (ex_column 1 True None))]"

definition ex_two_pk_klass :: "string klass" where
  "ex_two_pk_klass =
     \<lparr>k_name = ''b'',
      k_attrs = [(''a'', Property ''a'' False), (''b'', Property ''b'' False),
                 (''pk'', Property ''a'' False)],
      k_columns = [(''a'', ex_column 0 True (Some ''a'')), (''b'', ex_column 1 True (Some ''b''))],
      k_db_map = [(Some ''a'', ''a''), (Some ''b'', ''b'')],
      k_pk_name = Some ''a'',
      k_dynamic_columns = []\<rparr>"

definition ex_id_attrs :: "string attrs" where
  "ex_id_attrs =
     [(''name'', Column (ex_column 0 False None)),
      (''id'', Column (ex_column 1 False None))]"

definition ex_id_klass :: "string klass" where
  "ex_id_klass =
     \<lparr>k_name = ''name'',
      k_attrs = [(''name'', Property ''name'' True), (''id'', Property ''id'' True),
                 (''pk'', Property ''id'' False)],
      k_columns = [(''id'', ex_column 1 False (Some ''id'')),
                   (''name'', ex_column 0 False (Some ''name''))],
      k_db_map = [(Some ''id'', ''id''), (Some ''name'', ''name'')],
      k_pk_name = Some ''id'',
      k_dynamic_columns = []\<rparr>"

definition ex_user_klass :: "string klass" where
  "ex_user_klass =
     \<lparr>k_name = ''age'',
      k_attrs = [(''age'', Property ''age'' True), (''name'', Property ''name'' True),
                 (''id'', Property ''id'' False), (''pk'', Property ''id'' False)],
      k_columns = [(''id'', (UUID ex_uuid True)\<lparr>db_field := Some ''id''\<rparr>),
                   (''name'', ex_column 0 False (Some ''name'')),
                   (''age'', ex_column 1 False (Some ''age''))],
      k_db_map = [(Some ''id'', ''id''), (Some ''name'', ''name''), (Some ''age'', ''age'')],
      k_pk_name = Some ''id'',
      k_dynamic_columns = []\<rparr>"

text \<open>
  A class whose primary key \<^verbatim>\<open>email\<close> has the explicit storage name \<^verbatim>\<open>mail\<close>, with an
  instance constructed from a value for every field; a class whose second column rejects
  every value, with an instance; and a manager that has one record stored.
\<close>

definition ex_profile_attrs :: "string attrs" where
  "ex_profile_attrs =
     [(''email'', Column ((ex_upper 1)\<lparr>primary_key := True, db_field := Some ''mail''\<rparr>)),
      (''nick'', Column (ex_upper 0))]"




definition ex_form_attrs :: "string attrs" where
  "ex_form_attrs =
     [(''a'', Column (ex_upper 0)),
      (''b'', Column (ex_rejecting 1)),
      (''c'', Column (ex_upper 2))]"

definition ex_form_klass :: "string klass" where
  "ex_form_klass =
     \<lparr>k_name = ''c'',
      k_attrs = [(''a'', Property ''a'' True), (''b'', Property ''b'' True),
                 (''c'', Property ''c'' True), (''id'', Property ''id'' False),
                 (''pk'', Property ''id'' False)],
      k_columns = [(''id'', (UUID ex_uuid True)\<lparr>db_field := Some ''id''\<rparr>),
                   (''a'', (ex_upper 0)\<lparr>db_field := Some ''a''\<rparr>),
                   (''b'', (ex_rejecting 1)\<lparr>db_field := Some ''b''\<rparr>),
                   (''c'', (ex_upper 2)\<lparr>db_field := Some ''c''\<rparr>)],
      k_db_map = [(Some ''id'', ''id''), (Some ''a'', ''a''), (Some ''b'', ''b''),
                  (Some ''c'', ''c'')],
      k_pk_name = Some ''id'',
      k_dynamic_columns = []\<rparr>"

definition ex_form_inst :: "string inst" where
  "ex_form_inst =
     init ex_form_klass [(''a'', PyVal ''x''), (''b'', PyVal ''y''), (''c'', PyVal ''z'')]"

definition ex_form_failed :: "string inst" where
  "ex_form_failed =
     \<lparr>i_values = [(''a'', PyVal ''x!''), (''b'', PyVal ''y''), (''c'', PyVal ''z''),
                  (''id'', PyVal ''generated'')],
      i_dynamic_columns = None\<rparr>"




definition ex_stored :: "string inst" where
  "ex_stored =
     \<lparr>i_values = [(''id'', PyVal ''k1''), (''name'', PyVal ''Ann'')],
      i_dynamic_columns = None\<rparr>"

definition ex_manager :: "string manager" where
  "ex_manager =
     \<lparr>m_lookup = (\<lambda>key. if key = PyVal ''k1'' then Inr ex_stored else Inl NotFound),
      m_calls = []\<rparr>"

text \<open>
  A class without a declared primary key whose two columns change the value on validation
  and on encoding, with the values for its two declared fields, the instance after
  validation and its serialization.
\<close>

definition ex_note_attrs :: "string attrs" where
  "ex_note_attrs =
     [(''body'', Column (ex_upper 1)),
      (''title'', Column (ex_upper 0))]"





text \<open>
  A class whose primary key is \<^verbatim>\<open>email\<close> and which declares a second column named \<^verbatim>\<open>pk\<close>,
  whose validator rejects every value; an instance constructed with the same value for
  both fields, and the instance as a failed validation leaves it.
\<close>

definition ex_alias_attrs :: "string attrs" where
  "ex_alias_attrs =
     [(''email'', Column ((ex_upper 0)\<lparr>primary_key := True\<rparr>)),
      (''pk'', Column (ex_rejecting 1))]"

definition ex_alias_klass :: "string klass" where
  "ex_alias_klass =
     \<lparr>k_name = ''pk'',
      k_attrs = [(''email'', Property ''email'' False), (''pk'', Property ''email'' False)],
      k_columns = [(''email'', (ex_upper 0)\<lparr>primary_key := True, db_field := Some ''email''\<rparr>),
                   (''pk'', (ex_rejecting 1)\<lparr>db_field := Some ''pk''\<rparr>)],
      k_db_map = [(Some ''email'', ''email''), (Some ''pk'', ''pk'')],
      k_pk_name = Some ''email'',
      k_dynamic_columns = []\<rparr>"

definition ex_alias_inst :: "string inst" where
  "ex_alias_inst = init ex_alias_klass [(''email'', PyVal ''e''), (''pk'', PyVal ''e'')]"

definition ex_alias_failed :: "string inst" where
  "ex_alias_failed = \<lparr>i_values = [(''email'', PyVal ''e!'')], i_dynamic_columns = None\<rparr>"

section \<open>Facts about the schema builder\<close>

lemma transform_columns_distinct:
  "distinct (map fst cols) \<Longrightarrow> distinct (map fst (fst (transform_columns defs (cols, p, a))))"
  by (induction defs arbitrary: cols p a) (auto simp: Let_def distinct_update)

lemma transform_columns_keys:
  "fst ` set (fst (transform_columns defs (cols, p, a))) = fst ` set cols \<union> fst ` set defs"
proof (induction defs arbitrary: cols p a)
  case Nil
  then show ?case by simp
next
  case (Cons d defs)
  obtain k v where d: "d = (k, v)" by (cases d)
  show ?case by (simp add: d Let_def Cons.IH dom_update)
qed

lemma update_fresh: "k \<notin> fst ` set al \<Longrightarrow> AList.update k v al = al @ [(k, v)]"
  by (induction al) auto

lemma transform_columns_append:
  "distinct (map fst defs) \<Longrightarrow> fst ` set defs \<inter> fst ` set cols = {} \<Longrightarrow>
   fst (transform_columns defs (cols, p, a)) = cols @ map (\<lambda>x. (fst x, set_db_name (fst x) (snd x))) defs"
proof (induction defs arbitrary: cols p a)
  case Nil
  then show ?case by simp
next
  case (Cons d defs)
  obtain k v where d: "d = (k, v)" by (cases d)
  from Cons.prems have fresh: "k \<notin> fst ` set cols" and dist: "distinct (map fst defs)"
    and knew: "k \<notin> fst ` set defs" and disj: "fst ` set defs \<inter> fst ` set cols = {}"
    by (auto simp: d)
  have "fst ` set defs \<inter> fst ` set (cols @ [(k, set_db_name k v)]) = {}"
    using knew disj by auto
  from Cons.IH [OF dist this] show ?case
    by (simp add: d Let_def update_fresh [OF fresh])
qed

lemma transform_columns_pk_name:
  "fst (snd (transform_columns defs (cols, p, a))) =
     (case p of Some x \<Rightarrow> Some x
      | None \<Rightarrow> map_option fst (List.find (\<lambda>x. primary_key (snd x)) defs))"
  by (induction defs arbitrary: cols p a) (auto simp: Let_def split: option.splits)

lemma check_duplicates_None:
  "check_duplicates name cols S = None \<longleftrightarrow>
     distinct (map (\<lambda>x. db_field (snd x)) cols) \<and> (\<lambda>x. db_field (snd x)) ` set cols \<inter> S = {}"
proof (induction cols arbitrary: S)
  case Nil
  then show ?case by simp
next
  case (Cons c cols)
  obtain k v where c: "c = (k, v)" by (cases c)
  show ?case
  proof (cases "db_field v \<in> S")
    case True
    then show ?thesis by (auto simp: c)
  next
    case False
    then show ?thesis by (simp add: c Cons.IH) blast
  qed
qed

lemma check_duplicates_Some:
  "check_duplicates name cols S = Some e \<Longrightarrow>
     \<exists>d. e = ModelException name d \<and> d \<in> (\<lambda>x. db_field (snd x)) ` set cols
        \<and> (d \<in> S \<or> 1 < count_list (map (\<lambda>x. db_field (snd x)) cols) d)"
proof (induction cols arbitrary: S)
  case Nil then show ?case by simp
next
  case (Cons c cols)
  obtain k v where c: "c = (k, v)" by (cases c)
  show ?case
  proof (cases "db_field v \<in> S")
    case True
    with Cons.prems show ?thesis by (auto simp: c)
  next
    case False
    with Cons.prems have "check_duplicates name cols (insert (db_field v) S) = Some e"
      by (simp add: c)
    from Cons.IH [OF this] obtain d where d: "e = ModelException name d"
      "d \<in> (\<lambda>x. db_field (snd x)) ` set cols"
      "d \<in> insert (db_field v) S \<or> 1 < count_list (map (\<lambda>x. db_field (snd x)) cols) d"
      by blast
    have "d \<in> set (map (\<lambda>x. db_field (snd x)) cols)"
      using d(2) by simp
    then have "count_list (map (\<lambda>x. db_field (snd x)) cols) d \<noteq> 0"
      by (simp only: count_list_0_iff not_not)
    then show ?thesis using d by (auto simp: c)
  qed
qed

lemma db_map_loop_name:
  "snd (db_map_loop cols (m, name)) = (if cols = [] then name else fst (last cols))"
  by (induction cols arbitrary: m name) auto

lemma prepend_primary_key_has_pk:
  "list_ex (\<lambda>x. primary_key (snd x)) (prepend_primary_key uuid defs)"
  by (simp add: prepend_primary_key_def UUID_def)

lemma transformed_pk_name:
  "\<exists>p. fst (snd (transformed uuid attrs)) = Some p \<and> p \<in> fst ` set (registered uuid attrs)"
proof -
  let ?defs = "prepend_primary_key uuid (sorted_definitions (column_definitions attrs))"
  have "list_ex (\<lambda>x. primary_key (snd x)) ?defs"
    by (rule prepend_primary_key_has_pk)
  then obtain x where x: "List.find (\<lambda>x. primary_key (snd x)) ?defs = Some x"
    by (cases "List.find (\<lambda>x. primary_key (snd x)) ?defs") (auto simp: find_None_iff list_ex_iff)
  then have "x \<in> set ?defs"
    by (auto simp: find_Some_iff)
  then have "fst x \<in> fst ` set (registered uuid attrs)"
    by (simp add: registered_def transformed_def transform_columns_keys)
  moreover have "fst (snd (transformed uuid attrs)) = Some (fst x)"
    by (simp add: transformed_def transform_columns_pk_name x)
  ultimately show ?thesis by blast
qed

lemma registered_nonempty: "registered uuid attrs \<noteq> []"
  using transformed_pk_name [of uuid attrs] by auto

lemma registered_distinct: "distinct (map fst (registered uuid attrs))"
  unfolding registered_def transformed_def by (rule transform_columns_distinct) simp

lemma pk_shortcut_registered:
  "\<exists>attrs2. pk_shortcut (registered uuid attrs) (fst (snd (transformed uuid attrs))) a = Inr attrs2"
proof -
  obtain p where p: "fst (snd (transformed uuid attrs)) = Some p"
    "p \<in> fst ` set (registered uuid attrs)"
    using transformed_pk_name by blast
  from p(2) obtain c where "map_of (registered uuid attrs) p = Some c"
    by (cases "map_of (registered uuid attrs) p") (auto simp: map_of_eq_None_iff)
  then show ?thesis by (simp add: pk_shortcut_def p(1))
qed

lemma build_Inl_iff:
  "build uuid name attrs = Inl e \<longleftrightarrow> check_duplicates name (registered uuid attrs) {} = Some e"
proof -
  obtain cols pk_name attrs1 where t: "transformed uuid attrs = (cols, pk_name, attrs1)"
    by (cases "transformed uuid attrs")
  obtain attrs2 where "pk_shortcut cols pk_name attrs1 = Inr attrs2"
    using pk_shortcut_registered [of uuid attrs attrs1] by (auto simp: registered_def t)
  then show ?thesis
    by (simp add: build_def t registered_def Let_def split: option.splits prod.splits)
qed

lemma build_Inr:
  assumes "build uuid name attrs = Inr k"
  shows "k_columns k = registered uuid attrs"
    and "k_pk_name k = fst (snd (transformed uuid attrs))"
    and "k_name k = snd (db_map_loop (registered uuid attrs) ([], name))"
    and "k_dynamic_columns k = []"
    and "check_duplicates name (registered uuid attrs) {} = None"
proof -
  obtain cols pk_name attrs1 where t: "transformed uuid attrs = (cols, pk_name, attrs1)"
    by (cases "transformed uuid attrs")
  obtain attrs2 where a2: "pk_shortcut cols pk_name attrs1 = Inr attrs2"
    using pk_shortcut_registered [of uuid attrs attrs1] by (auto simp: registered_def t)
  from assms have chk: "check_duplicates name cols {} = None"
    by (cases "check_duplicates name cols {}") (simp_all add: build_def t a2)
  obtain db_map name' where l: "db_map_loop cols ([], name) = (db_map, name')"
    by (cases "db_map_loop cols ([], name)")
  from assms have k: "k = \<lparr>k_name = name', k_attrs = pop_db_name attrs2, k_columns = cols,
       k_db_map = db_map, k_pk_name = pk_name, k_dynamic_columns = []\<rparr>"
    by (simp add: build_def t a2 chk l Let_def)
  show "k_columns k = registered uuid attrs" by (simp add: k registered_def t)
  show "k_pk_name k = fst (snd (transformed uuid attrs))" by (simp add: k t)
  show "k_name k = snd (db_map_loop (registered uuid attrs) ([], name))"
    by (simp add: k registered_def t l)
  show "k_dynamic_columns k = []" by (simp add: k)
  show "check_duplicates name (registered uuid attrs) {} = None"
    by (simp add: registered_def t chk)
qed

lemma build_succeeds:
  assumes "check_duplicates name (registered uuid attrs) {} = None"
  shows "\<exists>k. build uuid name attrs = Inr k"
proof (cases "build uuid name attrs")
  case (Inl e)
  then show ?thesis using assms by (simp add: build_Inl_iff)
next
  case (Inr k)
  then show ?thesis by blast
qed

lemma column_definitions_keys: "fst ` set (column_definitions attrs) \<subseteq> fst ` set attrs"
  by (induction attrs rule: column_definitions.induct) auto

lemma column_definitions_distinct:
  "distinct (map fst attrs) \<Longrightarrow> distinct (map fst (column_definitions attrs))"
proof (induction attrs rule: column_definitions.induct)
  case (2 k c attrs)
  then show ?case using column_definitions_keys [of attrs] by auto
qed auto

lemma sorted_definitions_distinct:
  "distinct (map fst (sorted_definitions defs)) = distinct (map fst defs)"
  by (simp add: sorted_definitions_def distinct_map)

lemma sorted_definitions_set: "set (sorted_definitions defs) = set defs"
  by (simp add: sorted_definitions_def)

lemma primary_keys_registered:
  "primary_key (set_db_name k v) = primary_key v"
  by (simp add: set_db_name_def split: option.splits)

lemma primary_keys_map_set_db_name:
  "primary_keys (map (\<lambda>x. (fst x, set_db_name (fst x) (snd x))) defs) = primary_keys defs"
  by (induction defs) (auto simp: primary_keys_def primary_keys_registered)

lemma registered_of_distinct:
  assumes "distinct (map fst (prepend_primary_key uuid (sorted_definitions (column_definitions attrs))))"
  shows "registered uuid attrs =
     map (\<lambda>x. (fst x, set_db_name (fst x) (snd x)))
       (prepend_primary_key uuid (sorted_definitions (column_definitions attrs)))"
  unfolding registered_def transformed_def
  using transform_columns_append [OF assms, of "[]" None attrs] by simp

lemma find_primary_key:
  "map_option fst (List.find (\<lambda>x. primary_key (snd x)) defs) =
     (case primary_keys defs of [] \<Rightarrow> None | p # ps \<Rightarrow> Some p)"
  by (induction defs) (auto simp: primary_keys_def)

lemma list_ex_primary_keys: "list_ex (\<lambda>x. primary_key (snd x)) defs \<longleftrightarrow> primary_keys defs \<noteq> []"
  by (auto simp: primary_keys_def list_ex_iff filter_empty_conv)

lemma primary_keys_sorted_single:
  "primary_keys defs = [p] \<Longrightarrow> primary_keys (sorted_definitions defs) = [p]"
proof -
  assume a: "primary_keys defs = [p]"
  then obtain x where x: "filter (\<lambda>x. primary_key (snd x)) defs = [x]" "fst x = p"
    by (auto simp: primary_keys_def)
  have "filter (\<lambda>x. primary_key (snd x)) (sorted_definitions defs)
        = sort_key (\<lambda>x. position (snd x)) (filter (\<lambda>x. primary_key (snd x)) defs)"
    by (simp add: sorted_definitions_def filter_sort)
  then show ?thesis by (simp add: x primary_keys_def)
qed

lemma primary_keys_sorted_empty:
  "primary_keys (sorted_definitions defs) = [] \<longleftrightarrow> primary_keys defs = []"
  by (simp add: primary_keys_def filter_empty_conv sorted_definitions_set)

lemma primary_keys_Cons:
  "primary_keys ((k, v) # cols) =
     (if primary_key v then k # primary_keys cols else primary_keys cols)"
  by (simp add: primary_keys_def)

lemma build_without_declared_pk:
  assumes d: "distinct (map fst attrs)" and b: "build uuid name attrs = Inr k"
    and n: "primary_keys (column_definitions attrs) = []"
    and i: "''id'' \<notin> fst ` set (column_definitions attrs)"
  shows "k_columns k =
           (''id'', set_db_name ''id'' (UUID uuid True)) #
           map (\<lambda>x. (fst x, set_db_name (fst x) (snd x)))
             (sorted_definitions (column_definitions attrs))"
    and "k_pk_name k = Some ''id''"
    and "primary_keys (k_columns k) = [''id'']"
proof -
  let ?s = "sorted_definitions (column_definitions attrs)"
  have ns: "primary_keys ?s = []" using n by (simp add: primary_keys_sorted_empty)
  then have p: "prepend_primary_key uuid ?s = (''id'', UUID uuid True) # ?s"
    by (simp add: prepend_primary_key_def list_ex_primary_keys)
  have "distinct (map fst ?s)"
    using d by (simp add: sorted_definitions_distinct column_definitions_distinct)
  moreover have "''id'' \<notin> fst ` set ?s" using i by (simp add: sorted_definitions_set)
  ultimately have "distinct (map fst (prepend_primary_key uuid ?s))" by (simp add: p)
  from registered_of_distinct [OF this]
  show c: "k_columns k =
           (''id'', set_db_name ''id'' (UUID uuid True)) #
           map (\<lambda>x. (fst x, set_db_name (fst x) (snd x))) ?s"
    by (simp add: build_Inr(1) [OF b] p)
  show "k_pk_name k = Some ''id''"
    by (simp add: build_Inr(2) [OF b] transformed_def transform_columns_pk_name p UUID_def)
  show "primary_keys (k_columns k) = [''id'']"
    by (simp only: c primary_keys_Cons primary_keys_map_set_db_name ns)
       (simp add: primary_keys_registered UUID_def)
qed

lemma build_with_declared_pk:
  assumes d: "distinct (map fst attrs)" and b: "build uuid name attrs = Inr k"
    and n: "primary_keys (column_definitions attrs) \<noteq> []"
  shows "k_columns k =
           map (\<lambda>x. (fst x, set_db_name (fst x) (snd x)))
             (sorted_definitions (column_definitions attrs))"
    and "primary_keys (k_columns k) = primary_keys (sorted_definitions (column_definitions attrs))"
    and "\<exists>p ps. primary_keys (k_columns k) = p # ps \<and> k_pk_name k = Some p"
proof -
  let ?s = "sorted_definitions (column_definitions attrs)"
  have ns: "primary_keys ?s \<noteq> []" using n by (simp add: primary_keys_sorted_empty)
  then have p: "prepend_primary_key uuid ?s = ?s"
    by (simp add: prepend_primary_key_def list_ex_primary_keys)
  have "distinct (map fst ?s)"
    using d by (simp add: sorted_definitions_distinct column_definitions_distinct)
  then have "distinct (map fst (prepend_primary_key uuid ?s))" by (simp add: p)
  from registered_of_distinct [OF this]
  show c: "k_columns k = map (\<lambda>x. (fst x, set_db_name (fst x) (snd x))) ?s"
    by (simp add: build_Inr(1) [OF b] p)
  show e: "primary_keys (k_columns k) = primary_keys ?s"
    by (simp add: c primary_keys_map_set_db_name)
  obtain q qs where q: "primary_keys ?s = q # qs"
    using ns by (cases "primary_keys ?s") auto
  have "k_pk_name k = Some q"
    by (simp add: build_Inr(2) [OF b] transformed_def transform_columns_pk_name p
        find_primary_key q)
  then show "\<exists>p ps. primary_keys (k_columns k) = p # ps \<and> k_pk_name k = Some p"
    by (simp add: e q)
qed

lemma build_pk_name:
  "build uuid cname attrs = Inr k \<Longrightarrow> \<exists>p. k_pk_name k = Some p \<and> p \<in> fst ` set (k_columns k)"
  using transformed_pk_name [of uuid attrs] by (simp add: build_Inr(1,2))

lemma db_map_loop_fst:
  "fst (db_map_loop cols (m, name)) = fst (db_map_loop cols (m, name'))"
  by (induction cols arbitrary: m name name') auto

lemma check_duplicates_name:
  "check_duplicates name cols S = None \<Longrightarrow> check_duplicates name' cols S = None"
  by (simp add: check_duplicates_None)

lemma build_ignores_declared_name:
  assumes "build uuid name attrs = Inr k"
  shows "build uuid name' attrs = Inr k"
proof -
  obtain cols pk_name attrs1 where t: "transformed uuid attrs = (cols, pk_name, attrs1)"
    by (cases "transformed uuid attrs")
  obtain attrs2 where a2: "pk_shortcut cols pk_name attrs1 = Inr attrs2"
    using pk_shortcut_registered [of uuid attrs attrs1] by (auto simp: registered_def t)
  from assms have chk: "check_duplicates name cols {} = None"
    by (cases "check_duplicates name cols {}") (simp_all add: build_def t a2)
  then have chk': "check_duplicates name' cols {} = None" by (rule check_duplicates_name)
  have ne: "cols \<noteq> []" using registered_nonempty [of uuid attrs] by (simp add: registered_def t)
  have "db_map_loop cols ([], name') = db_map_loop cols ([], name)"
    using db_map_loop_fst [of cols "[]" name' name] db_map_loop_name [of cols "[]" name]
      db_map_loop_name [of cols "[]" name'] ne
    by (simp add: prod_eq_iff)
  with assms show ?thesis
    by (simp add: build_def t a2 chk chk' Let_def)
qed

lemma transform_columns_attrs_Cons:
  "d \<notin> fst ` set defs \<Longrightarrow>
   transform_columns defs (cols, p, (d, a) # attrs) =
     (case transform_columns defs (cols, p, attrs) of (c, q, as) \<Rightarrow> (c, q, (d, a) # as))"
proof (induction defs arbitrary: cols p attrs)
  case Nil
  then show ?case by simp
next
  case (Cons x defs)
  obtain k v where x: "x = (k, v)" by (cases x)
  from Cons.prems have kd: "k \<noteq> d" and r: "d \<notin> fst ` set defs" by (auto simp: x)
  from kd have dk: "d \<noteq> k" by simp
  show ?case by (simp add: x Let_def dk Cons.IH [OF r])
qed

lemma transform_columns_attrs_keys:
  "transform_columns defs (cols, p, attrs) = (c, q, as) \<Longrightarrow>
   fst ` set as = fst ` set attrs \<union> fst ` set defs"
proof (induction defs arbitrary: cols p attrs)
  case Nil
  then show ?case by simp
next
  case (Cons x defs)
  obtain k v where x: "x = (k, v)" by (cases x)
  from Cons.prems have "transform_columns defs
      (AList.update k (set_db_name k v) cols,
       (if p = None \<and> primary_key v then Some k else p),
       AList.update k (get_property k (\<not> primary_key v)) attrs) = (c, q, as)"
    by (simp add: x Let_def)
  from Cons.IH [OF this] show ?case by (auto simp: x dom_update)
qed

lemma column_definitions_not_column:
  "\<forall>c. a \<noteq> Column c \<Longrightarrow> column_definitions ((d, a) # attrs) = column_definitions attrs"
  by (cases a) auto

lemma prepend_primary_key_keys:
  "fst ` set (prepend_primary_key uuid defs) \<subseteq> insert ''id'' (fst ` set defs)"
  by (auto simp: prepend_primary_key_def)

lemma build_ignores_db_name:
  assumes na: "\<forall>c. a \<noteq> Column c" and nd: "''db_name'' \<notin> fst ` set attrs"
  shows "build uuid name ((''db_name'', a) # attrs) = build uuid name attrs"
proof -
  let ?defs = "prepend_primary_key uuid (sorted_definitions (column_definitions attrs))"
  have "fst ` set ?defs \<subseteq> insert ''id'' (fst ` set attrs)"
    using prepend_primary_key_keys [of uuid "sorted_definitions (column_definitions attrs)"]
      column_definitions_keys [of attrs]
    by (auto simp: sorted_definitions_set)
  with nd have fresh: "''db_name'' \<notin> fst ` set ?defs" by auto
  obtain cols pk_name attrs1 where t: "transformed uuid attrs = (cols, pk_name, attrs1)"
    by (cases "transformed uuid attrs")
  have t': "transformed uuid ((''db_name'', a) # attrs) = (cols, pk_name, (''db_name'', a) # attrs1)"
    using t transform_columns_attrs_Cons [OF fresh, of "[]" None a attrs]
    by (simp add: transformed_def column_definitions_not_column [OF na])
  obtain attrs2 where a2: "pk_shortcut cols pk_name attrs1 = Inr attrs2"
    using pk_shortcut_registered [of uuid attrs attrs1] by (auto simp: registered_def t)
  have a2': "pk_shortcut cols pk_name ((''db_name'', a) # attrs1) = Inr ((''db_name'', a) # attrs2)"
    using a2 by (auto simp: pk_shortcut_def split: if_splits option.splits)
  have "''db_name'' \<notin> fst ` set attrs2"
  proof -
    have "fst ` set attrs1 = fst ` set attrs \<union> fst ` set ?defs"
      using t transform_columns_attrs_keys by (simp add: transformed_def)
    then have "''db_name'' \<notin> fst ` set attrs1" using nd fresh by simp
    moreover from a2 have "attrs2 = attrs1
        \<or> (\<exists>x. attrs2 = AList.update ''pk'' x attrs1)"
      by (auto simp: pk_shortcut_def split: if_splits option.splits)
    then have "fst ` set attrs2 \<subseteq> insert ''pk'' (fst ` set attrs1)"
      using dom_update [of "''pk''" _ attrs1] by auto
    ultimately show ?thesis by auto
  qed
  then have "pop_db_name ((''db_name'', a) # attrs2) = pop_db_name attrs2"
    by (simp add: pop_db_name_def)
  then show ?thesis
    by (cases "check_duplicates name cols {}") (simp_all add: build_def t t' a2 a2' Let_def)
qed

lemma sorted_definitions_sorted:
  "sorted (map (\<lambda>x. position (snd x)) (sorted_definitions defs))"
  by (simp add: sorted_definitions_def)

lemma sorted_definitions_stable:
  "filter (\<lambda>x. position (snd x) = p) (sorted_definitions defs) =
   filter (\<lambda>x. position (snd x) = p) defs"
  by (simp add: sorted_definitions_def sort_key_stable)

lemma build_columns_order:
  assumes d: "distinct (map fst attrs)" and b: "build uuid name attrs = Inr k"
    and c: "primary_keys (column_definitions attrs) \<noteq> []
              \<or> ''id'' \<notin> fst ` set (column_definitions attrs)"
  shows "map fst (k_columns k) =
           (if primary_keys (column_definitions attrs) = [] then [''id''] else []) @
           map fst (sorted_definitions (column_definitions attrs))"
proof (cases "primary_keys (column_definitions attrs) = []")
  case True
  with c have "''id'' \<notin> fst ` set (column_definitions attrs)" by simp
  from build_without_declared_pk(1) [OF d b True this] True show ?thesis
    by (simp add: comp_def)
next
  case False
  from build_with_declared_pk(1) [OF d b False] False show ?thesis
    by (simp add: comp_def)
qed

lemma ex_upper_fields:
  "position (ex_upper pos) = pos" "primary_key (ex_upper pos) = False"
  "db_field (ex_upper pos) = None"
  by (simp_all add: ex_upper_def)

lemma ex_rejecting_fields:
  "position (ex_rejecting pos) = pos" "primary_key (ex_rejecting pos) = False"
  "db_field (ex_rejecting pos) = None"
  by (simp_all add: ex_rejecting_def)

lemmas build_eval =
  build_def transformed_def registered_def prepend_primary_key_def sorted_definitions_def
  UUID_def set_db_name_def get_property_def pk_shortcut_def cf_name_def pop_db_name_def
  ex_column_def ex_uuid_def ex_user_attrs_def ex_clash_attrs_def ex_one_pk_attrs_def
  ex_two_pk_attrs_def ex_id_attrs_def ex_profile_attrs_def ex_form_attrs_def
  ex_note_attrs_def ex_alias_attrs_def
  ex_upper_fields ex_rejecting_fields Let_def

section \<open>The accessors of a built class\<close>

text \<open>
  Line 75 binds every registered field name to an accessor of its own column; lines 94 and
  104 then change the attributes \<^verbatim>\<open>pk\<close> and \<^verbatim>\<open>db_name\<close>. So in a built class the attribute
  \<^verbatim>\<open>pk\<close> and the name of the primary key read and write one slot, and the field names are
  bound to the accessors of their own columns exactly when no column is named like a
  management member or \<^verbatim>\<open>db_name\<close>, and none but the primary key is named \<^verbatim>\<open>pk\<close>.
\<close>

lemma transform_columns_attrs_property:
  "transform_columns defs (cols, p, attrs) = (c, q, as) \<Longrightarrow>
   n \<in> fst ` set defs \<or> (\<exists>b. map_of attrs n = Some (Property n b)) \<Longrightarrow>
   \<exists>b. map_of as n = Some (Property n b)"
proof (induction defs arbitrary: cols p attrs)
  case Nil
  then show ?case by simp
next
  case (Cons x defs)
  obtain k v where x: "x = (k, v)" by (cases x)
  let ?attrs = "AList.update k (get_property k (\<not> primary_key v)) attrs"
  from Cons.prems(1) obtain cols' p' where
    r: "transform_columns defs (cols', p', ?attrs) = (c, q, as)"
    by (simp add: x Let_def)
  have "n \<in> fst ` set defs \<or> (\<exists>b. map_of ?attrs n = Some (Property n b))"
    using Cons.prems(2) by (auto simp: x update_conv' get_property_def)
  from Cons.IH [OF r this] show ?case .
qed

lemma build_attrs:
  assumes b: "build uuid name attrs = Inr k" and p: "k_pk_name k = Some p"
  shows "k_attrs k =
     pop_db_name
       (if p \<noteq> ''pk''
        then AList.update ''pk'' (get_property p False) (snd (snd (transformed uuid attrs)))
        else snd (snd (transformed uuid attrs)))"
proof -
  obtain cols pk_name attrs1 where t: "transformed uuid attrs = (cols, pk_name, attrs1)"
    by (cases "transformed uuid attrs")
  obtain attrs2 where a2: "pk_shortcut cols pk_name attrs1 = Inr attrs2"
    using pk_shortcut_registered [of uuid attrs attrs1] by (auto simp: registered_def t)
  from b have chk: "check_duplicates name cols {} = None"
    by (cases "check_duplicates name cols {}") (simp_all add: build_def t a2)
  obtain db_map name' where l: "db_map_loop cols ([], name) = (db_map, name')"
    by (cases "db_map_loop cols ([], name)")
  from b have k: "k = \<lparr>k_name = name', k_attrs = pop_db_name attrs2, k_columns = cols,
       k_db_map = db_map, k_pk_name = pk_name, k_dynamic_columns = []\<rparr>"
    by (simp add: build_def t a2 chk l Let_def)
  from p have pn: "pk_name = Some p" by (simp add: k)
  from a2 have "attrs2 = (if p \<noteq> ''pk'' then AList.update ''pk'' (get_property p False) attrs1
       else attrs1)"
    by (auto simp: pk_shortcut_def pn split: option.splits if_splits)
  then show ?thesis by (simp add: k t)
qed

lemma build_column_property:
  assumes b: "build uuid name attrs = Inr k" and n: "n \<in> fst ` set (k_columns k)"
  shows "\<exists>b. map_of (snd (snd (transformed uuid attrs))) n = Some (Property n b)"
proof -
  let ?defs = "prepend_primary_key uuid (sorted_definitions (column_definitions attrs))"
  obtain c q as where t: "transform_columns ?defs ([], None, attrs) = (c, q, as)"
    by (cases "transform_columns ?defs ([], None, attrs)")
  from n have "n \<in> fst ` set ?defs"
    by (simp add: build_Inr(1) [OF b] registered_def transformed_def transform_columns_keys)
  with transform_columns_attrs_property [OF t, of n] show ?thesis
    by (simp add: transformed_def t)
qed

lemma build_accessor:
  assumes b: "build uuid name attrs = Inr k" and p: "k_pk_name k = Some p"
    and n: "n \<in> fst ` set (k_columns k)"
  shows "accessor k n =
     (if n \<in> set members \<or> n = ''db_name'' then None
      else if n = ''pk'' then Some p else Some n)"
proof -
  from build_column_property [OF b n] obtain a where
    a: "map_of (snd (snd (transformed uuid attrs))) n = Some (Property n a)" by blast
  have m: "map_of (k_attrs k) n =
      (if n = ''db_name'' then None
       else if n = ''pk'' \<and> p \<noteq> ''pk'' then Some (Property p False)
       else Some (Property n a))"
    by (simp add: build_attrs [OF b p] pop_db_name_def delete_conv' update_conv'
        get_property_def a)
  show ?thesis unfolding accessor_def m by simp
qed

lemma build_accessor_pk:
  assumes b: "build uuid name attrs = Inr k" and p: "k_pk_name k = Some p"
  shows "accessor k ''pk'' = Some p"
proof (cases "p = ''pk''")
  case True
  from build_pk_name [OF b] p have "p \<in> fst ` set (k_columns k)" by simp
  from build_accessor [OF b p this] True show ?thesis by (simp add: members_def)
next
  case False
  then show ?thesis
    by (simp add: accessor_def build_attrs [OF b p] pop_db_name_def delete_conv' update_conv'
        get_property_def members_def)
qed

lemma build_slot_pk_name:
  assumes b: "build uuid name attrs = Inr k" and p: "k_pk_name k = Some p"
  shows "slot k p = p" and "slot k ''pk'' = p"
proof -
  from build_pk_name [OF b] p have "p \<in> fst ` set (k_columns k)" by simp
  from build_accessor [OF b p this] show "slot k p = p" by (simp add: slot_def)
  show "slot k ''pk'' = p" by (simp add: slot_def build_accessor_pk [OF b p])
qed

lemma build_own_accessors:
  assumes b: "build uuid name attrs = Inr k" and p: "k_pk_name k = Some p"
  shows "own_accessors k \<longleftrightarrow>
     (\<forall>n \<in> fst ` set (k_columns k).
        n \<notin> set members \<and> n \<noteq> ''db_name'' \<and> (n = ''pk'' \<longrightarrow> p = ''pk''))"
proof -
  have "accessor k n = Some n \<longleftrightarrow>
      n \<notin> set members \<and> n \<noteq> ''db_name'' \<and> (n = ''pk'' \<longrightarrow> p = ''pk'')"
    if "n \<in> fst ` set (k_columns k)" for n
    using build_accessor [OF b p that] by auto
  then show ?thesis by (auto simp: own_accessors_def list_all_iff)
qed

lemma own_accessors_slot:
  "own_accessors k \<Longrightarrow> n \<in> fst ` set (k_columns k) \<Longrightarrow> slot k n = n"
  by (auto simp: own_accessors_def list_all_iff slot_def)

section \<open>Facts about record instances\<close>

lemma getattr_setattr:
  "getattr k (setattr k s n v) m = (if slot k m = slot k n then Some v else getattr k s m)"
  by (simp add: getattr_def setattr_def update_conv')












lemma validate_loop_Inl:
  "distinct (map fst cols) \<Longrightarrow> \<forall>n \<in> fst ` set cols. slot k n = n \<Longrightarrow>
   validate_loop k cols s = Inl (e, s') \<Longrightarrow>
     \<exists>before name col after. cols = before @ (name, col) # after
       \<and> (\<forall>(n, c) \<in> set before. \<exists>v v'. getattr k s n = Some v \<and> col_validate c v = Inr v'
             \<and> getattr k s' n = Some v')
       \<and> (\<forall>n. slot k n \<notin> fst ` set before \<longrightarrow> getattr k s' n = getattr k s n)
       \<and> (case getattr k s name of None \<Rightarrow> e = AttributeError name
            | Some x \<Rightarrow> col_validate col x = Inl e)"
proof (induction cols arbitrary: s)
  case Nil
  then show ?case by simp
next
  case (Cons p cols)
  obtain m c where p: "p = (m, c)" by (cases p)
  from Cons.prems(1) have d: "distinct (map fst cols)" and m: "m \<notin> fst ` set cols"
    by (simp_all add: p)
  from Cons.prems(2) have sm: "slot k m = m" and sc: "\<forall>n \<in> fst ` set cols. slot k n = n"
    by (simp_all add: p)
  show ?case
  proof (cases "getattr k s m")
    case None
    with Cons.prems(3) have "e = AttributeError m" "s' = s" by (simp_all add: p)
    then have "p # cols = [] @ (m, c) # cols
       \<and> (\<forall>(n, c) \<in> set []. \<exists>v v'. getattr k s n = Some v \<and> col_validate c v = Inr v'
             \<and> getattr k s' n = Some v')
       \<and> (\<forall>n. slot k n \<notin> fst ` set [] \<longrightarrow> getattr k s' n = getattr k s n)
       \<and> (case getattr k s m of None \<Rightarrow> e = AttributeError m
            | Some x \<Rightarrow> col_validate c x = Inl e)"
      by (simp add: p None)
    then show ?thesis by blast
  next
    case (Some x)
    show ?thesis
    proof (cases "col_validate c x")
      case (Inl e0)
      with Cons.prems(3) Some have "e = e0" "s' = s" by (simp_all add: p)
      then have "p # cols = [] @ (m, c) # cols
         \<and> (\<forall>(n, c) \<in> set []. \<exists>v v'. getattr k s n = Some v \<and> col_validate c v = Inr v'
               \<and> getattr k s' n = Some v')
         \<and> (\<forall>n. slot k n \<notin> fst ` set [] \<longrightarrow> getattr k s' n = getattr k s n)
         \<and> (case getattr k s m of None \<Rightarrow> e = AttributeError m
              | Some x \<Rightarrow> col_validate c x = Inl e)"
        by (simp add: p Some Inl)
      then show ?thesis by blast
    next
      case (Inr val)
      let ?s1 = "setattr k s m val"
      from Cons.prems(3) have r: "validate_loop k cols ?s1 = Inl (e, s')"
        by (simp add: p Some Inr)
      from Cons.IH [OF d sc r] obtain before name col after where
        c: "cols = before @ (name, col) # after"
        and b: "\<forall>(n, c) \<in> set before. \<exists>v v'. getattr k ?s1 n = Some v \<and> col_validate c v = Inr v'
             \<and> getattr k s' n = Some v'"
        and o: "\<forall>n. slot k n \<notin> fst ` set before \<longrightarrow> getattr k s' n = getattr k ?s1 n"
        and f: "case getattr k ?s1 name of None \<Rightarrow> e = AttributeError name
            | Some x \<Rightarrow> col_validate col x = Inl e"
        by blast
      from m c have mb: "m \<notin> fst ` set before" and mn: "name \<noteq> m" by auto
      from sc c have sname: "slot k name = name" by simp
      have 1: "p # cols = ((m, c) # before) @ (name, col) # after" by (simp add: p c)
      have 2: "\<forall>(n, c') \<in> set ((m, c) # before). \<exists>v v'. getattr k s n = Some v
             \<and> col_validate c' v = Inr v' \<and> getattr k s' n = Some v'"
      proof (intro ballI)
        fix y assume y: "y \<in> set ((m, c) # before)"
        obtain n c' where yy: "y = (n, c')" by (cases y)
        show "case y of (n, c') \<Rightarrow> \<exists>v v'. getattr k s n = Some v
             \<and> col_validate c' v = Inr v' \<and> getattr k s' n = Some v'"
        proof (cases "y = (m, c)")
          case True
          have "getattr k s' m = Some val" using o mb by (simp add: getattr_setattr sm)
          then show ?thesis using True Some Inr by simp
        next
          case False
          with y have yb: "(n, c') \<in> set before" by (auto simp: yy)
          then have ni: "n \<in> fst ` set before" by force
          with mb have "n \<noteq> m" by blast
          moreover from ni c sc have "slot k n = n" by auto
          moreover from b yb obtain v v' where "getattr k ?s1 n = Some v"
            "col_validate c' v = Inr v'" "getattr k s' n = Some v'" by blast
          ultimately show ?thesis by (auto simp: yy getattr_setattr sm)
        qed
      qed
      have 3: "\<forall>n. slot k n \<notin> fst ` set ((m, c) # before) \<longrightarrow> getattr k s' n = getattr k s n"
        using o by (simp add: getattr_setattr sm)
      have 4: "case getattr k s name of None \<Rightarrow> e = AttributeError name
            | Some x \<Rightarrow> col_validate col x = Inl e"
        using f mn by (simp add: getattr_setattr sm sname)
      from 1 2 3 4 show ?thesis by blast
    qed
  qed
qed







section \<open>The duplicate check is the only failure of the build\<close>

text \<open>
  Claim C5. Building a schema fails exactly when two registered columns have the same
  \<^verbatim>\<open>db_field\<close>; the exception is then the \<^verbatim>\<open>ModelException\<close> that names the declared type
  name and a storage field that occurs more than once among the registered columns. No
  other exception leaves the build (the \<^verbatim>\<open>KeyError\<close> of line 94 cannot happen), and a failed
  build returns no class, so no instance of it can be constructed.
\<close>

theorem build_fails_iff_duplicate_db_field:
  "((\<exists>e. build uuid name attrs = Inl e) \<longleftrightarrow>
      \<not> distinct (map (\<lambda>x. db_field (snd x)) (registered uuid attrs)))
   \<and> (\<forall>e. build uuid name attrs = Inl e \<longrightarrow>
         (\<forall>k. build uuid name attrs \<noteq> Inr k)
         \<and> (\<exists>d. e = ModelException name d
            \<and> 1 < count_list (map (\<lambda>x. db_field (snd x)) (registered uuid attrs)) d))"
proof (intro conjI allI impI)
  show "(\<exists>e. build uuid name attrs = Inl e) \<longleftrightarrow>
      \<not> distinct (map (\<lambda>x. db_field (snd x)) (registered uuid attrs))"
    using check_duplicates_None [of name "registered uuid attrs" "{}"]
    by (auto simp: build_Inl_iff)
next
  fix e k assume "build uuid name attrs = Inl e"
  then show "build uuid name attrs \<noteq> Inr k" by simp
next
  fix e assume "build uuid name attrs = Inl e"
  then have "check_duplicates name (registered uuid attrs) {} = Some e"
    by (simp add: build_Inl_iff)
  from check_duplicates_Some [OF this]
  show "\<exists>d. e = ModelException name d
            \<and> 1 < count_list (map (\<lambda>x. db_field (snd x)) (registered uuid attrs)) d"
    by auto
qed

theorem build_fails_iff_duplicate_db_field_witness:
  "build ex_uuid ''T'' ex_clash_attrs = Inl (ModelException ''T'' (Some ''x''))
   \<and> \<not> distinct (map (\<lambda>x. db_field (snd x)) (registered ex_uuid ex_clash_attrs))
   \<and> 1 < count_list (map (\<lambda>x. db_field (snd x)) (registered ex_uuid ex_clash_attrs)) (Some ''x'')
   \<and> distinct (map (\<lambda>x. db_field (snd x)) (registered ex_uuid ex_user_attrs))
   \<and> (\<forall>e. build ex_uuid ''User'' ex_user_attrs \<noteq> Inl e)"
  using build_fails_iff_duplicate_db_field [of ex_uuid "''T''" ex_clash_attrs]
    build_fails_iff_duplicate_db_field [of ex_uuid "''User''" ex_user_attrs]
  by (simp add: build_eval)

section \<open>The name of the created class\<close>

text \<open>
  Claim C10. The loop of lines 108 and 109 rebinds \<^verbatim>\<open>name\<close>, and a schema always has a
  column, so the class is created (line 118) under the field name of the last column of
  \<^verbatim>\<open>_columns\<close>, whatever the name it was declared under.
\<close>

theorem build_type_name_is_last_column:
  "build uuid name attrs = Inr k \<Longrightarrow>
     k_columns k \<noteq> [] \<and> k_name k = fst (last (k_columns k))"
  by (simp add: build_Inr(1,3) db_map_loop_name registered_nonempty)

theorem build_type_name_is_last_column_witness:
  "(\<exists>k. build ex_uuid ''User'' ex_user_attrs = Inr k
      \<and> k_columns k \<noteq> [] \<and> k_name k = fst (last (k_columns k))
      \<and> k_name k = ''age'' \<and> k_name k \<noteq> ''User'')"
proof -
  obtain k where k: "build ex_uuid ''User'' ex_user_attrs = Inr k"
    by (simp add: build_eval)
  from k have n: "k_name k = ''age''"
    by (auto simp: build_eval)
  then have "k_name k \<noteq> ''User''"
    by simp
  with build_type_name_is_last_column [OF k] k n show ?thesis
    by blast
qed

section \<open>The primary key of a schema\<close>

text \<open>
  The builds of the example class bodies, evaluated.
\<close>

lemma build_ex_user: "build ex_uuid ''User'' ex_user_attrs = Inr ex_user_klass"
  by (simp add: build_eval ex_user_klass_def)

lemma build_ex_one_pk: "build ex_uuid ''Account'' ex_one_pk_attrs = Inr ex_one_pk_klass"
  by (simp add: build_eval ex_one_pk_klass_def)

lemma build_ex_two_pk: "build ex_uuid ''T'' ex_two_pk_attrs = Inr ex_two_pk_klass"
  by (simp add: build_eval ex_two_pk_klass_def)

lemma build_ex_id: "build ex_uuid ''T'' ex_id_attrs = Inr ex_id_klass"
  by (simp add: build_eval ex_id_klass_def)

text \<open>
  Claim C3, as stated, fails: line 88 takes the first column with \<^verbatim>\<open>primary_key\<close> as
  \<^verbatim>\<open>pk_name\<close> and registers every column, so a class body that declares two primary keys
  gets a schema with two primary-key columns.
\<close>

theorem build_two_primary_keys_counterexample:
  "build ex_uuid ''T'' ex_two_pk_attrs = Inr ex_two_pk_klass
   \<and> primary_keys (k_columns ex_two_pk_klass) = [''a'', ''b'']
   \<and> k_pk_name ex_two_pk_klass = Some ''a''"
  by (simp add: build_ex_two_pk) (simp add: ex_two_pk_klass_def primary_keys_def ex_column_def)

text \<open>
  Claim C3, amended. For a class body (a dictionary, so its keys are distinct) whose build
  succeeds: if no declared column is a primary key and none is named \<^verbatim>\<open>id\<close>, the schema is
  the synthesized \<^verbatim>\<open>UUID(primary_key=True)\<close> column \<^verbatim>\<open>id\<close> followed by the declared columns
  in sorted order, \<^verbatim>\<open>id\<close> is its only primary-key column and \<^verbatim>\<open>_pk_name\<close> is \<^verbatim>\<open>id\<close>; if some
  declared column is a primary key, no identifier is synthesized, the schema's primary-key
  columns are the declared ones in sorted order, and \<^verbatim>\<open>_pk_name\<close> is the first of them;
  with exactly one declared primary key \<open>p\<close>, it is the only primary-key column and
  \<^verbatim>\<open>_pk_name\<close> is \<open>p\<close>.
\<close>

theorem build_primary_key:
  assumes d: "distinct (map fst attrs)" and b: "build uuid name attrs = Inr k"
  shows "(primary_keys (column_definitions attrs) = []
            \<and> ''id'' \<notin> fst ` set (column_definitions attrs) \<longrightarrow>
          k_pk_name k = Some ''id'' \<and> primary_keys (k_columns k) = [''id'']
          \<and> k_columns k =
              (''id'', set_db_name ''id'' (UUID uuid True)) #
              map (\<lambda>x. (fst x, set_db_name (fst x) (snd x)))
                (sorted_definitions (column_definitions attrs)))
       \<and> (primary_keys (column_definitions attrs) \<noteq> [] \<longrightarrow>
          k_columns k =
              map (\<lambda>x. (fst x, set_db_name (fst x) (snd x)))
                (sorted_definitions (column_definitions attrs))
          \<and> primary_keys (k_columns k) = primary_keys (sorted_definitions (column_definitions attrs))
          \<and> (\<exists>p ps. primary_keys (k_columns k) = p # ps \<and> k_pk_name k = Some p))
       \<and> (\<forall>p. primary_keys (column_definitions attrs) = [p] \<longrightarrow>
          k_pk_name k = Some p \<and> primary_keys (k_columns k) = [p])"
proof (intro conjI impI allI)
  assume "primary_keys (column_definitions attrs) = []
            \<and> ''id'' \<notin> fst ` set (column_definitions attrs)"
  then have n: "primary_keys (column_definitions attrs) = []"
    and i: "''id'' \<notin> fst ` set (column_definitions attrs)" by simp_all
  show "k_pk_name k = Some ''id''" by (rule build_without_declared_pk(2) [OF d b n i])
  show "primary_keys (k_columns k) = [''id'']" by (rule build_without_declared_pk(3) [OF d b n i])
  show "k_columns k =
              (''id'', set_db_name ''id'' (UUID uuid True)) #
              map (\<lambda>x. (fst x, set_db_name (fst x) (snd x)))
                (sorted_definitions (column_definitions attrs))"
    by (rule build_without_declared_pk(1) [OF d b n i])
next
  assume n: "primary_keys (column_definitions attrs) \<noteq> []"
  show "k_columns k =
              map (\<lambda>x. (fst x, set_db_name (fst x) (snd x)))
                (sorted_definitions (column_definitions attrs))"
    by (rule build_with_declared_pk(1) [OF d b n])
  show "primary_keys (k_columns k) = primary_keys (sorted_definitions (column_definitions attrs))"
    by (rule build_with_declared_pk(2) [OF d b n])
  show "\<exists>p ps. primary_keys (k_columns k) = p # ps \<and> k_pk_name k = Some p"
    by (rule build_with_declared_pk(3) [OF d b n])
next
  fix p assume p: "primary_keys (column_definitions attrs) = [p]"
  then have ne: "primary_keys (column_definitions attrs) \<noteq> []" by simp
  show e: "primary_keys (k_columns k) = [p]"
    using build_with_declared_pk(2) [OF d b ne] primary_keys_sorted_single [OF p] by simp
  from build_with_declared_pk(3) [OF d b ne] e show "k_pk_name k = Some p" by auto
qed

theorem build_primary_key_witness:
  "distinct (map fst ex_user_attrs)
   \<and> build ex_uuid ''User'' ex_user_attrs = Inr ex_user_klass
   \<and> primary_keys (column_definitions ex_user_attrs) = []
   \<and> ''id'' \<notin> fst ` set (column_definitions ex_user_attrs)
   \<and> k_pk_name ex_user_klass = Some ''id''
   \<and> primary_keys (k_columns ex_user_klass) = [''id'']
   \<and> distinct (map fst ex_one_pk_attrs)
   \<and> build ex_uuid ''Account'' ex_one_pk_attrs = Inr ex_one_pk_klass
   \<and> primary_keys (column_definitions ex_one_pk_attrs) = [''email'']
   \<and> k_pk_name ex_one_pk_klass = Some ''email''
   \<and> primary_keys (k_columns ex_one_pk_klass) = [''email'']"
proof -
  have d1: "distinct (map fst ex_user_attrs)" by (simp add: ex_user_attrs_def)
  have n1: "primary_keys (column_definitions ex_user_attrs) = []"
    by (simp add: ex_user_attrs_def primary_keys_def ex_column_def)
  have i1: "''id'' \<notin> fst ` set (column_definitions ex_user_attrs)"
    by (simp add: ex_user_attrs_def)
  have d2: "distinct (map fst ex_one_pk_attrs)" by (simp add: ex_one_pk_attrs_def)
  have n2: "primary_keys (column_definitions ex_one_pk_attrs) = [''email'']"
    by (simp add: ex_one_pk_attrs_def primary_keys_def ex_column_def)
  from build_primary_key [OF d1 build_ex_user] n1 i1
  have "k_pk_name ex_user_klass = Some ''id'' \<and> primary_keys (k_columns ex_user_klass) = [''id'']"
    by blast
  moreover from build_primary_key [OF d2 build_ex_one_pk] n2
  have "k_pk_name ex_one_pk_klass = Some ''email''
        \<and> primary_keys (k_columns ex_one_pk_klass) = [''email'']"
    by blast
  ultimately show ?thesis
    using d1 d2 n1 n2 i1 build_ex_user build_ex_one_pk by simp
qed

section \<open>The order of the columns\<close>

text \<open>
  Claim C8 at a class body without a primary key that declares \<^verbatim>\<open>name\<close> (position 0) and
  \<^verbatim>\<open>id\<close> (position 1): line 84 prepends the synthesized \<^verbatim>\<open>id\<close>, and the loop of lines 87 to
  90 then stores the declared \<^verbatim>\<open>id\<close> under the key that is already first. The schema's
  columns are \<^verbatim>\<open>id\<close>, \<^verbatim>\<open>name\<close> with positions 1, 0, and none of them is a primary key.
\<close>

theorem build_declared_id_order:
  "build ex_uuid ''T'' ex_id_attrs = Inr ex_id_klass
   \<and> map fst (k_columns ex_id_klass) = [''id'', ''name'']
   \<and> map position (map snd (k_columns ex_id_klass)) = [1, 0]
   \<and> primary_keys (k_columns ex_id_klass) = []
   \<and> k_pk_name ex_id_klass = Some ''id''"
  by (simp add: build_ex_id) (simp add: ex_id_klass_def primary_keys_def ex_column_def)

section \<open>The table name\<close>

text \<open>
  Claim C4 at the class \<^verbatim>\<open>User\<close> with \<^verbatim>\<open>db_name = 'users'\<close>: line 104 computes \<^verbatim>\<open>'users'\<close> and
  removes \<^verbatim>\<open>db_name\<close> from the attributes, and nothing stores the value: the created class has
  no attribute \<^verbatim>\<open>db_name\<close> of its own, and its name is the last column's.
\<close>

theorem build_drops_table_name:
  "build ex_uuid ''User'' ex_user_attrs = Inr ex_user_klass
   \<and> cf_name ''User'' ex_user_attrs = Str ''users''
   \<and> map_of (k_attrs ex_user_klass) ''db_name'' = None
   \<and> map fst (k_attrs ex_user_klass) = [''age'', ''name'', ''id'', ''pk'']
   \<and> k_name ex_user_klass = ''age''"
  by (simp add: build_ex_user) (simp add: ex_user_klass_def cf_name_def ex_user_attrs_def)

section \<open>Serialization after validation\<close>


lemma build_ex_form: "build ex_uuid ''Form'' ex_form_attrs = Inr ex_form_klass"
  by (simp add: build_eval ex_form_klass_def)


lemma build_ex_alias: "build ex_uuid ''Account'' ex_alias_attrs = Inr ex_alias_klass"
  by (simp add: build_eval ex_alias_klass_def)

lemmas inst_eval =
  init_def validate_def getattr_def setattr_def slot_def accessor_def members_def pk_def
  as_dict_def dynamic_columns_def set_dynamic_columns_def dynamic_setitem_def
  save_def save_instance_def find_def manager_find_def



lemma own_accessors_ex_form: "own_accessors ex_form_klass"
  by (simp add: own_accessors_def accessor_def members_def ex_form_klass_def)






lemma validate_ex_form:
  "validate ex_form_klass ex_form_inst = Inl (ValidationError ''rejected'', ex_form_failed)"
  by (simp add: inst_eval ex_form_klass_def ex_form_inst_def ex_form_failed_def
      ex_upper_def ex_rejecting_def ex_uuid_def UUID_def)


lemma pk_ex_form: "pk ex_form_klass ex_form_inst = Inr PyNone"
  by (simp add: inst_eval ex_form_klass_def ex_form_inst_def)

lemma build_columns_distinct:
  "build uuid cname attrs = Inr k \<Longrightarrow> distinct (map fst (k_columns k))"
  by (simp add: build_Inr(1) registered_distinct)




section \<open>Saving\<close>

text \<open>
  In a built class the attribute \<^verbatim>\<open>pk\<close> that \<^verbatim>\<open>save\<close> reads at line 51 is the accessor of
  line 94 (or of line 75, when the primary key is itself named \<^verbatim>\<open>pk\<close>); it reads the slot
  of the primary key, the slot that the property of lines 32 to 35 reads under \<^verbatim>\<open>_pk_name\<close>.
\<close>

lemma pk_reads_accessor:
  assumes b: "build uuid cname attrs = Inr k" and p: "k_pk_name k = Some p"
  shows "getattr k self ''pk'' = getattr k self p"
    and "pk k self =
      (case getattr k self ''pk'' of None \<Rightarrow> Inl (AttributeError p) | Some v \<Rightarrow> Inr v)"
proof -
  show g: "getattr k self ''pk'' = getattr k self p"
    by (simp add: getattr_def build_slot_pk_name [OF b p])
  show "pk k self =
      (case getattr k self ''pk'' of None \<Rightarrow> Inl (AttributeError p) | Some v \<Rightarrow> Inr v)"
    by (simp add: pk_def p g)
qed



section \<open>A failed validation\<close>

text \<open>
  When every field name is bound to the accessor of its own column, a failed \<^verbatim>\<open>validate()\<close>
  behaves as claim C7 says. The columns split into those before the failing one, the
  failing one and the rest: every field before holds its validated value, the field of the
  failing column and of every column after it holds the value it had, and the exception is
  the one the failing column's validator raised (or the \<^verbatim>\<open>AttributeError\<close> of line 40 for a
  field that was never set). \<^verbatim>\<open>save()\<close> then raises the same exception with the instance in
  the same state, and the manager has received no call.
\<close>

lemma validate_failure_own_accessors:
  assumes b: "build uuid cname attrs = Inr k" and o: "own_accessors k"
    and f: "validate k self = Inl (e, self')"
  shows "(\<exists>before name col after. k_columns k = before @ (name, col) # after
       \<and> (\<forall>(n, c) \<in> set before. \<exists>v v'. getattr k self n = Some v \<and> col_validate c v = Inr v'
             \<and> getattr k self' n = Some v')
       \<and> (\<forall>(n, c) \<in> set ((name, col) # after). getattr k self' n = getattr k self n)
       \<and> (case getattr k self name of None \<Rightarrow> e = AttributeError name
            | Some x \<Rightarrow> col_validate col x = Inl e))
     \<and> fst (save k m self) = m
     \<and> (\<forall>key. pk k self = Inr key \<longrightarrow> save k m self = (m, Inl (e, self')))"
proof (intro conjI allI impI)
  note dc = build_columns_distinct [OF b]
  from o have sl: "\<forall>n \<in> fst ` set (k_columns k). slot k n = n"
    by (simp add: own_accessors_slot)
  from validate_loop_Inl [OF dc sl f [unfolded validate_def]]
  obtain before name col after where
    c: "k_columns k = before @ (name, col) # after"
    and bf: "\<forall>(n, c) \<in> set before. \<exists>v v'. getattr k self n = Some v \<and> col_validate c v = Inr v'
             \<and> getattr k self' n = Some v'"
    and ot: "\<forall>n. slot k n \<notin> fst ` set before \<longrightarrow> getattr k self' n = getattr k self n"
    and fl: "case getattr k self name of None \<Rightarrow> e = AttributeError name
            | Some x \<Rightarrow> col_validate col x = Inl e"
    by blast
  have rest: "\<forall>(n, c) \<in> set ((name, col) # after). getattr k self' n = getattr k self n"
  proof (intro ballI)
    fix y assume y: "y \<in> set ((name, col) # after)"
    obtain n c' where yy: "y = (n, c')" by (cases y)
    from y have ni: "n \<in> fst ` set ((name, col) # after)" by (force simp: yy)
    with dc c have nb: "n \<notin> fst ` set before" by auto
    from ni c have "n \<in> fst ` set (k_columns k)" by auto
    with sl have "slot k n = n" by blast
    with nb ot have "getattr k self' n = getattr k self n" by simp
    then show "case y of (n, c) \<Rightarrow> getattr k self' n = getattr k self n" by (simp add: yy)
  qed
  from c bf rest fl
  show "\<exists>before name col after. k_columns k = before @ (name, col) # after
       \<and> (\<forall>(n, c) \<in> set before. \<exists>v v'. getattr k self n = Some v \<and> col_validate c v = Inr v'
             \<and> getattr k self' n = Some v')
       \<and> (\<forall>(n, c) \<in> set ((name, col) # after). getattr k self' n = getattr k self n)
       \<and> (case getattr k self name of None \<Rightarrow> e = AttributeError name
            | Some x \<Rightarrow> col_validate col x = Inl e)"
    by blast
next
  show "fst (save k m self) = m"
    by (cases "pk k self") (simp_all add: save_def f)
next
  fix key assume "pk k self = Inr key"
  then show "save k m self = (m, Inl (e, self'))"
    by (simp add: save_def f)
qed

lemma validate_failure_ex_form:
  "build ex_uuid ''Form'' ex_form_attrs = Inr ex_form_klass
   \<and> own_accessors ex_form_klass
   \<and> validate ex_form_klass ex_form_inst = Inl (ValidationError ''rejected'', ex_form_failed)
   \<and> pk ex_form_klass ex_form_inst = Inr PyNone
   \<and> save ex_form_klass ex_manager ex_form_inst =
        (ex_manager, Inl (ValidationError ''rejected'', ex_form_failed))
   \<and> getattr ex_form_klass ex_form_inst ''a'' = Some (PyVal ''x'')
   \<and> getattr ex_form_klass ex_form_failed ''a'' = Some (PyVal ''x!'')
   \<and> getattr ex_form_klass ex_form_failed ''b'' = Some (PyVal ''y'')
   \<and> getattr ex_form_klass ex_form_failed ''c'' = Some (PyVal ''z'')"
proof -
  from validate_failure_own_accessors [OF build_ex_form own_accessors_ex_form validate_ex_form,
      of ex_manager] pk_ex_form
  have "save ex_form_klass ex_manager ex_form_inst =
        (ex_manager, Inl (ValidationError ''rejected'', ex_form_failed))"
    by blast
  then show ?thesis
    using build_ex_form own_accessors_ex_form validate_ex_form pk_ex_form
    by (simp add: inst_eval ex_form_failed_def ex_form_inst_def ex_form_klass_def)
qed

text \<open>
  Claim C7 at a class whose primary key is \<^verbatim>\<open>email\<close> (position 0) and which declares a
  second column named \<^verbatim>\<open>pk\<close> (position 1) whose validator raises: line 94 replaces the
  accessor of the column \<^verbatim>\<open>pk\<close> by the accessor of the primary key, so the two fields are one
  slot. On the instance constructed with \<^verbatim>\<open>e\<close> for both fields, \<^verbatim>\<open>validate()\<close> stores the
  validated \<^verbatim>\<open>e!\<close> for \<^verbatim>\<open>email\<close> and fails at the column \<^verbatim>\<open>pk\<close>; the field \<^verbatim>\<open>pk\<close> of the failing
  column read \<^verbatim>\<open>e\<close> before the call and reads \<^verbatim>\<open>e!\<close> after it. The exception does reach the
  caller of \<^verbatim>\<open>save()\<close>, and the manager receives no call.
\<close>

theorem validate_failure_pk_alias:
  "build ex_uuid ''Account'' ex_alias_attrs = Inr ex_alias_klass
   \<and> map fst (k_columns ex_alias_klass) = [''email'', ''pk'']
   \<and> accessor ex_alias_klass ''pk'' = Some ''email''
   \<and> getattr ex_alias_klass ex_alias_inst ''email'' = Some (PyVal ''e'')
   \<and> getattr ex_alias_klass ex_alias_inst ''pk'' = Some (PyVal ''e'')
   \<and> validate ex_alias_klass ex_alias_inst = Inl (ValidationError ''rejected'', ex_alias_failed)
   \<and> getattr ex_alias_klass ex_alias_failed ''email'' = Some (PyVal ''e!'')
   \<and> getattr ex_alias_klass ex_alias_failed ''pk'' = Some (PyVal ''e!'')
   \<and> save ex_alias_klass ex_manager ex_alias_inst =
        (ex_manager, Inl (ValidationError ''rejected'', ex_alias_failed))"
  by (simp add: build_ex_alias)
     (simp add: inst_eval ex_alias_klass_def ex_alias_inst_def ex_alias_failed_def
        ex_upper_def ex_rejecting_def)

section \<open>Loading by primary key\<close>

text \<open>
  Claim C2 at a manager whose lookup finds a record under \<^verbatim>\<open>k1\<close> and raises \<^verbatim>\<open>NotFound\<close>
  otherwise: line 30 calls the manager and drops what it returns, so \<^verbatim>\<open>find\<close> returns
  \<^verbatim>\<open>None\<close> for \<^verbatim>\<open>k1\<close>; the \<^verbatim>\<open>NotFound\<close> for another key does reach the caller.
\<close>

theorem find_returns_none:
  "manager_find ex_manager (PyVal ''k1'') =
     (ex_manager\<lparr>m_calls := [Find (PyVal ''k1'')]\<rparr>, Inr ex_stored)
   \<and> find ex_manager (PyVal ''k1'') = (ex_manager\<lparr>m_calls := [Find (PyVal ''k1'')]\<rparr>, Inr None)
   \<and> find ex_manager (PyVal ''k2'') =
       (ex_manager\<lparr>m_calls := [Find (PyVal ''k2'')]\<rparr>, Inl NotFound)"
  by (simp add: find_def manager_find_def ex_manager_def)

section \<open>The dynamic columns\<close>









end
